theory Spec2Isabelle
  imports Complex_Main "HOL-Library.Product_Lexorder" "HOL-Library.Multiset"
begin

section \<open>Top-word extraction of the topic-modelling notebook\<close>

text \<open>
  The notebook function under study:
  \<^verbatim>\<open>
  def plot_top_words(model, feature_names, n_top_words=10, n_row=2, n_col=5, normalize=False):
      fig, axes = plt.subplots(n_row, n_col, figsize=(3 * n_col, 5 * n_row), sharex=True)
      axes = axes.flatten()
      components = model.components_
      if normalize:
          components = components / components.sum(axis=1)[:, np.newaxis]
      for topic_idx, topic in enumerate(components):
          top_features_ind = topic.argsort()[: -n_top_words - 1 : -1]
          top_features = [feature_names[i] for i in top_features_ind]
          weights = topic[top_features_ind]
          ax = axes[topic_idx]
          ax.barh(top_features, weights, height=0.7)
          ...
      return fig, axes
  \<close>
  The value of interest is what reaches \<open>ax.barh\<close> for every topic: the selected
  terms and their weights.
\<close>

subsection \<open>Array elements\<close>

text \<open>
  An element of a float64 array is a number or one of the IEEE special values. Numbers are
  exact rationals: rounding to 53 bits is not modelled, and the two signed zeros are one
  value. Overflow is modelled: see \<open>overflow\<close> below.
\<close>

datatype float64 = Num rat | PInf | NInf | NaN

fun isnan :: "float64 \<Rightarrow> bool" where
  "isnan NaN = True"
| "isnan _ = False"

fun isfinite :: "float64 \<Rightarrow> bool" where
  "isfinite (Num _) = True"
| "isfinite _ = False"

text \<open>The IEEE comparison \<open><\<close>: false as soon as one side is NaN.\<close>

fun float_lt :: "float64 \<Rightarrow> float64 \<Rightarrow> bool" where
  "float_lt (Num a) (Num b) = (a < b)"
| "float_lt (Num a) PInf = True"
| "float_lt NInf (Num b) = True"
| "float_lt NInf PInf = True"
| "float_lt _ _ = False"

text \<open>The IEEE comparison \<open>>=\<close>.\<close>

definition float_ge :: "float64 \<Rightarrow> float64 \<Rightarrow> bool" where
  "float_ge a b = (\<not> isnan a \<and> \<not> isnan b \<and> \<not> float_lt a b)"

text \<open>
  The greatest float64 is \<open>2^1024 - 2^971\<close>. A result whose magnitude reaches
  \<open>2^1024 - 2^970\<close>, half a unit in the last place beyond it, is delivered as an infinity.
\<close>

definition float64_overflow_bound :: rat where
  "float64_overflow_bound = 2 ^ 1024 - 2 ^ 970"

definition overflow :: "rat \<Rightarrow> float64" where
  "overflow q =
     (if float64_overflow_bound \<le> q then PInf
      else if q \<le> - float64_overflow_bound then NInf
      else Num q)"

text \<open>Addition, as \<open>components.sum(axis=1)\<close> accumulates it.\<close>

fun float_add :: "float64 \<Rightarrow> float64 \<Rightarrow> float64" where
  "float_add (Num a) (Num b) = overflow (a + b)"
| "float_add NaN _ = NaN"
| "float_add _ NaN = NaN"
| "float_add PInf NInf = NaN"
| "float_add NInf PInf = NaN"
| "float_add PInf _ = PInf"
| "float_add _ PInf = PInf"
| "float_add NInf _ = NInf"
| "float_add _ NInf = NInf"

text \<open>
  Division, as the array operator \<open>/\<close> performs it element by element. NumPy does not raise
  on a zero divisor: it warns and stores \<open>nan\<close> for \<open>0/0\<close> and a signed \<open>inf\<close> for \<open>x/0\<close>.
\<close>

fun float_div :: "float64 \<Rightarrow> float64 \<Rightarrow> float64" where
  "float_div (Num a) (Num b) =
     (if b \<noteq> 0 then overflow (a / b)
      else if 0 < a then PInf else if a < 0 then NInf else NaN)"
| "float_div NaN _ = NaN"
| "float_div _ NaN = NaN"
| "float_div (Num a) _ = Num 0"
| "float_div PInf (Num b) = (if b < 0 then NInf else PInf)"
| "float_div NInf (Num b) = (if b < 0 then PInf else NInf)"
| "float_div _ _ = NaN"

subsection \<open>The NumPy operations used\<close>

text \<open>
  \<open>a.sum()\<close> of a one-dimensional array, added from left to right, as NumPy adds rows of
  fewer than 8 entries. Without rounding the order of the additions matters only where a
  partial sum overflows.
\<close>

definition float_sum :: "float64 list \<Rightarrow> float64" where
  "float_sum topic = foldl float_add (Num 0) topic"

text \<open>
  \<open>components / components.sum(axis=1)[:, np.newaxis]\<close>: every row divided, element by
  element, by its own sum. The result is a new array.
\<close>

definition divide_by_row_sums :: "float64 list list \<Rightarrow> float64 list list" where
  "divide_by_row_sums components =
     map (\<lambda>topic. map (\<lambda>w. float_div w (float_sum topic)) topic) components"

text \<open>
  The order NumPy sorts floats in: the comparator of its sort routines is
  \<open>a < b || (b != b && a == a)\<close>, which puts every NaN after every other value.
\<close>

definition np_lt :: "float64 \<Rightarrow> float64 \<Rightarrow> bool" where
  "np_lt a b = (float_lt a b \<or> (isnan b \<and> \<not> isnan a))"

text \<open>The same order as a key into a linear order, for the library's sort.\<close>

fun np_key :: "float64 \<Rightarrow> nat \<times> rat" where
  "np_key NInf = (0, 0)"
| "np_key (Num a) = (1, a)"
| "np_key PInf = (2, 0)"
| "np_key NaN = (3, 0)"

text \<open>
  \<open>topic.argsort()\<close> returns the indices of \<open>topic\<close> in ascending order of their
  values. That is all NumPy promises for its default kind: among equal values the order is
  left open, and it differs between array lengths and builds. \<open>is_argsort topic order\<close>
  says that \<open>order\<close> is a result \<open>topic.argsort()\<close> may return: a permutation of the
  indices along which the values ascend.
\<close>

definition is_argsort :: "float64 list \<Rightarrow> nat list \<Rightarrow> bool" where
  "is_argsort topic order =
     (sort order = [0..<length topic] \<and> sorted (map (\<lambda>i. np_key (topic ! i)) order))"

text \<open>
  One function that meets this contract, used wherever a result is computed: the insertion
  sort, which keeps equal values in index order.
\<close>

definition argsort :: "float64 list \<Rightarrow> nat list" where
  "argsort topic = sort_key (\<lambda>i. np_key (topic ! i)) [0..<length topic]"

text \<open>
  The slice \<open>xs[:stop:-1]\<close>: start omitted, step \<open>-1\<close>. Python adds the length to a
  negative \<open>stop\<close>, clips the result to \<open>-1 .. len - 1\<close>, and walks down from the last
  element to the one just after \<open>stop\<close>.
\<close>

definition slice_to_rev :: "'a list \<Rightarrow> int \<Rightarrow> 'a list" where
  "slice_to_rev xs stop =
     (let len = int (length xs);
          stop' = (if stop < 0
                   then (if stop + len < 0 then - 1 else stop + len)
                   else (if len \<le> stop then len - 1 else stop))
      in take (nat (len - 1 - stop')) (rev xs))"

datatype error = IndexError | AttributeError | ValueError

text \<open>\<open>xs[i]\<close> for an index that is not negative.\<close>

definition getitem :: "'a list \<Rightarrow> nat \<Rightarrow> error + 'a" where
  "getitem xs i = (if i < length xs then Inr (xs ! i) else Inl IndexError)"

text \<open>
  \<open>[xs[i] for i in inds]\<close>, and the index array \<open>xs[inds]\<close>: the first index out of range
  raises.
\<close>

fun getitems :: "'a list \<Rightarrow> nat list \<Rightarrow> error + 'a list" where
  "getitems xs [] = Inr []"
| "getitems xs (i # inds) =
     (case getitem xs i of
        Inl e \<Rightarrow> Inl e
      | Inr x \<Rightarrow>
          (case getitems xs inds of Inl e \<Rightarrow> Inl e | Inr ys \<Rightarrow> Inr (x # ys)))"

subsection \<open>One topic\<close>

text \<open>
  \<open>topic.argsort()[: -n_top_words - 1 : -1]\<close>: first the slice of whatever
  \<open>topic.argsort()\<close> returned, then the whole expression with the insertion sort in the
  place of \<open>argsort\<close>.
\<close>

definition top_features_ind_of :: "nat list \<Rightarrow> int \<Rightarrow> nat list" where
  "top_features_ind_of order n_top_words = slice_to_rev order (- n_top_words - 1)"

definition top_features_ind :: "float64 list \<Rightarrow> int \<Rightarrow> nat list" where
  "top_features_ind topic n_top_words = top_features_ind_of (argsort topic) n_top_words"

text \<open>
  The body of the loop up to the call of \<open>ax.barh\<close>: the terms and the weights handed to
  the bar plot of one topic.
\<close>

type_synonym bars = "string list \<times> float64 list"

definition top_words :: "string list \<Rightarrow> int \<Rightarrow> float64 list \<Rightarrow> error + bars" where
  "top_words feature_names n_top_words topic =
     (let inds = top_features_ind topic n_top_words in
      case getitems feature_names inds of
        Inl e \<Rightarrow> Inl e
      | Inr top_features \<Rightarrow>
          (case getitems topic inds of
             Inl e \<Rightarrow> Inl e
           | Inr weights \<Rightarrow> Inr (top_features, weights)))"

subsection \<open>The figure and the loop over the topics\<close>

text \<open>
  \<open>plt.subplots(n_row, n_col, ...)\<close> followed by \<open>axes.flatten()\<close>, as the number of axes
  obtained. Matplotlib refuses a grid without rows or columns, and for a grid of one cell it
  returns the single axes object itself, which has no \<open>flatten\<close>.
\<close>

definition subplots_flatten :: "int \<Rightarrow> int \<Rightarrow> error + nat" where
  "subplots_flatten n_row n_col =
     (if n_row \<le> 0 \<or> n_col \<le> 0 then Inl ValueError
      else if n_row = 1 \<and> n_col = 1 then Inl AttributeError
      else Inr (nat (n_row * n_col)))"

text \<open>
  The \<open>for\<close> loop over \<open>enumerate(components)\<close>. The result lists, topic by topic, the
  arguments of \<open>ax.barh\<close>; an exception ends the loop.
\<close>

fun plot_topics ::
  "nat \<Rightarrow> string list \<Rightarrow> int \<Rightarrow> nat \<Rightarrow> float64 list list \<Rightarrow> error + bars list" where
  "plot_topics n_axes feature_names n_top_words topic_idx [] = Inr []"
| "plot_topics n_axes feature_names n_top_words topic_idx (topic # rest) =
     (case top_words feature_names n_top_words topic of
        Inl e \<Rightarrow> Inl e
      | Inr bars \<Rightarrow>
          (if n_axes \<le> topic_idx then Inl IndexError
           else (case plot_topics n_axes feature_names n_top_words (Suc topic_idx) rest of
                   Inl e \<Rightarrow> Inl e
                 | Inr out \<Rightarrow> Inr (bars # out))))"

definition plot_top_words ::
  "float64 list list \<Rightarrow> string list \<Rightarrow> int \<Rightarrow> int \<Rightarrow> int \<Rightarrow> bool \<Rightarrow> error + bars list" where
  "plot_top_words model_components feature_names n_top_words n_row n_col normalise =
     (case subplots_flatten n_row n_col of
        Inl e \<Rightarrow> Inl e
      | Inr n_axes \<Rightarrow>
          (let components =
                 (if normalise then divide_by_row_sums model_components else model_components)
           in plot_topics n_axes feature_names n_top_words 0 components))"

subsection \<open>The call on a store of objects\<close>

text \<open>
  Arrays, lists and fitted models are objects: a variable holds a reference, and two
  variables may hold the same one. The store maps references to the objects that exist;
  the references below \<open>next_ref\<close> are the allocated ones. A model object holds, in its
  attribute \<open>components_\<close>, the reference of its weight matrix.
\<close>

type_synonym ref = nat

record model =
  components_attr :: ref

record store =
  models :: "ref \<Rightarrow> model option"
  ndarrays :: "ref \<Rightarrow> float64 list list option"
  pylists :: "ref \<Rightarrow> string list option"
  next_ref :: ref

text \<open>A NumPy operation that returns a new array allocates it at the next free reference.\<close>

definition new_ndarray :: "float64 list list \<Rightarrow> store \<Rightarrow> ref \<times> store" where
  "new_ndarray a s =
     (next_ref s,
      s\<lparr>ndarrays := (ndarrays s)(next_ref s \<mapsto> a), next_ref := Suc (next_ref s)\<rparr>)"

text \<open>
  The function on the store, with \<open>model\<close> and \<open>feature_names\<close> passed as references.
  \<open>components = model.components_\<close> copies the reference held by the attribute; the
  division builds a new array and rebinds the local variable \<open>components\<close> to it; the loop
  only reads. The result is what the call yields and the store it leaves.
\<close>

definition plot_top_words_store ::
  "store \<Rightarrow> ref \<Rightarrow> ref \<Rightarrow> int \<Rightarrow> int \<Rightarrow> int \<Rightarrow> bool \<Rightarrow> (error + bars list) \<times> store" where
  "plot_top_words_store s model feature_names n_top_words n_row n_col normalise =
     (case subplots_flatten n_row n_col of
        Inl e \<Rightarrow> (Inl e, s)
      | Inr n_axes \<Rightarrow>
          (let components = components_attr (the (models s model));
               (components, s) =
                  (if normalise
                   then new_ndarray (divide_by_row_sums (the (ndarrays s components))) s
                   else (components, s))
           in (plot_topics n_axes (the (pylists s feature_names)) n_top_words 0
                 (the (ndarrays s components)), s)))"

section \<open>Properties of the operations\<close>

lemma np_lt_key: "np_lt a b \<longleftrightarrow> np_key a < np_key b"
  by (cases a; cases b) (simp_all add: np_lt_def)

lemma length_argsort: "length (argsort topic) = length topic"
  by (simp add: argsort_def)

lemma set_argsort: "set (argsort topic) = {0..<length topic}"
  by (simp add: argsort_def)

lemma distinct_argsort: "distinct (argsort topic)"
  by (simp add: argsort_def)

lemma sorted_argsort: "sorted_wrt (\<lambda>i j. np_key (topic ! i) \<le> np_key (topic ! j)) (argsort topic)"
proof -
  have "sorted (map (\<lambda>i. np_key (topic ! i)) (argsort topic))"
    unfolding argsort_def by (rule sorted_sort_key)
  then show ?thesis by (simp add: sorted_wrt_map)
qed

lemma slice_to_rev_take:
  "slice_to_rev xs (- n - 1)
     = take (if 0 \<le> n then min (nat n) (length xs) else length xs - nat (- n)) (rev xs)"
  by (auto simp: slice_to_rev_def Let_def min_def intro!: arg_cong2[where f=take])

lemma top_features_ind_take:
  "top_features_ind topic n = take (if 0 \<le> n then min (nat n) (length topic) else length topic - nat (- n)) (rev (argsort topic))"
  by (simp add: top_features_ind_def top_features_ind_of_def slice_to_rev_take length_argsort)

lemma getitems_in_range:
  "\<forall>i\<in>set inds. i < length xs \<Longrightarrow> getitems xs inds = Inr (map ((!) xs) inds)"
  by (induction inds) (simp_all add: getitem_def)

lemma getitems_error:
  "getitems xs inds = Inl e \<longleftrightarrow> e = IndexError \<and> (\<exists>i\<in>set inds. length xs \<le> i)"
  by (induction inds) (auto simp: getitem_def split: sum.splits)

lemma top_features_ind_subset: "set (top_features_ind topic n) \<subseteq> {0..<length topic}"
proof -
  have "set (top_features_ind topic n) \<subseteq> set (rev (argsort topic))"
    unfolding top_features_ind_take by (rule set_take_subset)
  then show ?thesis by (simp add: set_argsort)
qed

lemma top_features_ind_in_range: "i \<in> set (top_features_ind topic n) \<Longrightarrow> i < length topic"
  using top_features_ind_subset by fastforce

lemma distinct_top_features_ind: "distinct (top_features_ind topic n)"
  unfolding top_features_ind_take by (simp add: distinct_argsort)

lemma length_top_features_ind:
  "length (top_features_ind topic n) = (if 0 \<le> n then min (nat n) (length topic) else length topic - nat (- n))"
  unfolding top_features_ind_take by (simp add: length_argsort)

lemma weights_in_range:
  "getitems topic (top_features_ind topic n) = Inr (map ((!) topic) (top_features_ind topic n))"
  by (rule getitems_in_range) (simp add: top_features_ind_in_range)

lemma top_words_ok:
  assumes "\<forall>i\<in>set (top_features_ind topic n). i < length feature_names"
  shows "top_words feature_names n topic =
           Inr (map ((!) feature_names) (top_features_ind topic n),
                map ((!) topic) (top_features_ind topic n))"
  using assms by (simp add: top_words_def Let_def getitems_in_range weights_in_range)

lemma top_words_covered:
  assumes "length topic \<le> length feature_names"
  shows "top_words feature_names n topic =
           Inr (map ((!) feature_names) (top_features_ind topic n),
                map ((!) topic) (top_features_ind topic n))"
proof (rule top_words_ok)
  show "\<forall>i\<in>set (top_features_ind topic n). i < length feature_names"
    using assms top_features_ind_in_range by fastforce
qed

lemma top_words_error:
  "top_words feature_names n topic = Inl e \<longleftrightarrow>
     e = IndexError \<and> (\<exists>i\<in>set (top_features_ind topic n). length feature_names \<le> i)"
proof -
  have "top_words feature_names n topic = Inl e \<longleftrightarrow>
          getitems feature_names (top_features_ind topic n) = Inl e"
    by (simp add: top_words_def Let_def weights_in_range split: sum.split)
  then show ?thesis
    by (simp only: getitems_error)
qed

lemma weights_descending:
  "sorted_wrt (\<lambda>a b. \<not> np_lt a b) (map ((!) topic) (top_features_ind topic n))"
proof -
  have "sorted_wrt (\<lambda>i j. np_key (topic ! j) \<le> np_key (topic ! i)) (rev (argsort topic))"
    using sorted_argsort[of topic] by (simp add: sorted_wrt_rev)
  then have "sorted_wrt (\<lambda>i j. np_key (topic ! j) \<le> np_key (topic ! i)) (top_features_ind topic n)"
    unfolding top_features_ind_take by (rule sorted_wrt_take)
  then show ?thesis
    by (simp add: sorted_wrt_map np_lt_key not_less)
qed

lemma plot_topics_ok:
  assumes "\<forall>topic\<in>set components. length topic \<le> length feature_names"
    and "topic_idx + length components \<le> n_axes"
  shows "plot_topics n_axes feature_names n topic_idx components =
           Inr (map (\<lambda>topic. (map ((!) feature_names) (top_features_ind topic n),
                               map ((!) topic) (top_features_ind topic n))) components)"
  using assms
proof (induction components arbitrary: topic_idx)
  case Nil
  then show ?case by simp
next
  case (Cons topic rest)
  from Cons.prems have "Suc topic_idx + length rest \<le> n_axes" by simp
  with Cons show ?case
    by (simp add: top_words_covered)
qed

lemma length_divide_by_row_sums: "length (divide_by_row_sums components) = length components"
  by (simp add: divide_by_row_sums_def)

lemma row_lengths_divide_by_row_sums:
  "\<forall>topic\<in>set components. length topic \<le> k \<Longrightarrow> \<forall>topic\<in>set (divide_by_row_sums components). length topic \<le> k"
  by (auto simp: divide_by_row_sums_def)

lemma plot_top_words_ok:
  assumes "subplots_flatten n_row n_col = Inr n_axes"
    and "length components \<le> n_axes"
    and "\<forall>topic\<in>set components. length topic \<le> length feature_names"
  shows "plot_top_words components feature_names n n_row n_col normalise =
           Inr (map (\<lambda>topic. (map ((!) feature_names) (top_features_ind topic n),
                               map ((!) topic) (top_features_ind topic n)))
                  (if normalise then divide_by_row_sums components else components))"
  using assms
  by (simp add: plot_top_words_def plot_topics_ok length_divide_by_row_sums
      row_lengths_divide_by_row_sums)

lemma float64_overflow_bound_large: "1000000 < float64_overflow_bound"
  by (simp add: float64_overflow_bound_def)

lemma overflow_small: "- 1000000 \<le> q \<Longrightarrow> q \<le> 1000000 \<Longrightarrow> overflow q = Num q"
  using float64_overflow_bound_large by (simp add: overflow_def)

lemmas run_defs =
  plot_top_words_def subplots_flatten_def divide_by_row_sums_def float_sum_def top_words_def
  top_features_ind_def top_features_ind_of_def argsort_def slice_to_rev_def getitem_def upt_rec

lemma overflow_cases: "overflow q = Num q \<or> \<not> isfinite (overflow q)"
  by (simp add: overflow_def)

lemma float_add_not_finite: "\<not> isfinite x \<Longrightarrow> \<not> isfinite (float_add x y)"
  by (cases x; cases y) simp_all

lemma foldl_float_add_not_finite: "\<not> isfinite x \<Longrightarrow> \<not> isfinite (foldl float_add x xs)"
  by (induction xs arbitrary: x) (simp_all add: float_add_not_finite)

lemma foldl_float_add_finite:
  "foldl float_add (Num a) xs = Num s \<Longrightarrow> \<exists>qs. xs = map Num qs \<and> a + sum_list qs = s"
proof (induction xs arbitrary: a)
  case Nil
  then show ?case by simp
next
  case (Cons w rest)
  have step: "isfinite (float_add (Num a) w)"
  proof (rule ccontr)
    assume "\<not> isfinite (float_add (Num a) w)"
    then have "\<not> isfinite (foldl float_add (float_add (Num a) w) rest)"
      by (rule foldl_float_add_not_finite)
    with Cons.prems show False by simp
  qed
  then obtain b where w: "w = Num b"
    by (cases w) simp_all
  with step overflow_cases[of "a + b"] have "float_add (Num a) w = Num (a + b)"
    by auto
  with Cons.prems have "foldl float_add (Num (a + b)) rest = Num s" by simp
  from Cons.IH[OF this] obtain qs where "rest = map Num qs" "a + b + sum_list qs = s" by blast
  with w have "w # rest = map Num (b # qs) \<and> a + sum_list (b # qs) = s" by (simp add: add.assoc)
  then show ?case by (rule exI)
qed

lemma float_sum_finite:
  "float_sum topic = Num s \<Longrightarrow> \<exists>qs. topic = map Num qs \<and> sum_list qs = s"
  using foldl_float_add_finite[of 0 topic s] by (simp add: float_sum_def)

lemma mset_argsort: "mset (argsort topic) = mset [0..<length topic]"
  by (simp add: argsort_def)

lemma all_indices_when_full:
  assumes "int (length topic) \<le> n"
  shows "top_features_ind topic n = rev (argsort topic)"
  using assms by (simp add: top_features_ind_take length_argsort)

lemma mset_map_all_indices:
  assumes "int (length topic) \<le> n" and "length xs = length topic"
  shows "mset (map ((!) xs) (top_features_ind topic n)) = mset xs"
proof -
  have "mset (map ((!) xs) (top_features_ind topic n)) = image_mset ((!) xs) (mset (argsort topic))"
    using assms(1) by (simp add: all_indices_when_full)
  also have "\<dots> = mset (map ((!) xs) [0..<length xs])"
    using assms(2) by (simp add: mset_argsort)
  also have "\<dots> = mset xs"
    by (simp add: map_nth)
  finally show ?thesis .
qed

lemma descending_float_lt:
  "sorted_wrt (\<lambda>a b. \<not> float_lt a b) (map ((!) topic) (top_features_ind topic n))"
  by (rule sorted_wrt_mono_rel[OF _ weights_descending]) (simp add: np_lt_def)

lemma descending_float_ge:
  assumes "\<forall>w\<in>set ws. isfinite w" and "sorted_wrt (\<lambda>a b. \<not> np_lt a b) ws"
  shows "sorted_wrt float_ge ws"
proof (rule sorted_wrt_mono_rel[OF _ assms(2)])
  fix a b assume "a \<in> set ws" "b \<in> set ws" "\<not> np_lt a b"
  with assms(1) show "float_ge a b"
    by (cases a; cases b) (auto simp: np_lt_def float_ge_def)
qed

lemma plot_top_words_out:
  assumes "subplots_flatten n_row n_col = Inr n_axes"
    and "length components \<le> n_axes"
    and "\<forall>topic\<in>set components. length topic \<le> length feature_names"
  shows "\<exists>out. plot_top_words components feature_names n n_row n_col normalise = Inr out
           \<and> length out = length components
           \<and> (\<forall>k<length components.
                 out ! k = (map ((!) feature_names) (top_features_ind ((if normalise then divide_by_row_sums components else components) ! k) n),
                            map ((!) ((if normalise then divide_by_row_sums components else components) ! k))
                              (top_features_ind ((if normalise then divide_by_row_sums components else components) ! k) n)))"
  using plot_top_words_ok[OF assms, of n normalise]
  by (simp add: length_divide_by_row_sums)

lemma divide_by_row_sums_nth:
  "k < length components \<Longrightarrow>
     divide_by_row_sums components ! k = map (\<lambda>w. float_div w (float_sum (components ! k))) (components ! k)"
  by (simp add: divide_by_row_sums_def)

lemma is_argsort_length: "is_argsort topic order \<Longrightarrow> length order = length topic"
proof -
  assume "is_argsort topic order"
  then have "length (sort order) = length [0..<length topic]"
    by (simp add: is_argsort_def)
  then show ?thesis by simp
qed

lemma is_argsort_argsort: "is_argsort topic (argsort topic)"
proof -
  have "sort (argsort topic) = [0..<length topic]"
    by (rule properties_for_sort) (simp_all add: mset_argsort)
  moreover have "sorted (map (\<lambda>i. np_key (topic ! i)) (argsort topic))"
    unfolding argsort_def by (rule sorted_sort_key)
  ultimately show ?thesis by (simp add: is_argsort_def)
qed

lemma top_features_ind_of_take:
  assumes "is_argsort topic order"
  shows "top_features_ind_of order n
           = take (if 0 \<le> n then min (nat n) (length topic) else length topic - nat (- n))
               (rev order)"
  using is_argsort_length[OF assms]
  by (simp add: top_features_ind_of_def slice_to_rev_take)

lemma top_features_ind_of_nth:
  assumes "is_argsort topic order"
    and "p < length (top_features_ind_of order n)"
  shows "top_features_ind_of order n ! p = order ! (length topic - 1 - p)"
    and "p < length topic"
proof -
  have len: "length order = length topic"
    by (rule is_argsort_length[OF assms(1)])
  from assms(2) have p: "p < length (rev order)"
    unfolding top_features_ind_of_take[OF assms(1)] by simp
  with len show "p < length topic" by simp
  from assms(2) have "top_features_ind_of order n ! p = rev order ! p"
    unfolding top_features_ind_of_take[OF assms(1)] by simp
  also from p have "\<dots> = order ! (length order - Suc p)"
    by (simp add: rev_nth)
  finally show "top_features_ind_of order n ! p = order ! (length topic - 1 - p)"
    using len by simp
qed

lemma zero_sum_nonneg_row_zero:
  assumes "float_sum topic = Num 0" and "\<forall>w\<in>set topic. \<not> float_lt w (Num 0)"
  shows "\<forall>w\<in>set topic. w = Num 0"
proof -
  from float_sum_finite[OF assms(1)] obtain qs where qs: "topic = map Num qs" "sum_list qs = 0"
    by blast
  from assms(2) qs(1) have "\<forall>q\<in>set qs. 0 \<le> q" by (auto simp: not_less)
  with qs(2) have "\<forall>q\<in>set qs. q = 0" by (simp add: sum_list_nonneg_eq_0_iff)
  with qs(1) show ?thesis by auto
qed

lemma zero_sum_nonneg_row_nan:
  assumes "float_sum topic = Num 0" and "\<forall>w\<in>set topic. \<not> float_lt w (Num 0)"
  shows "\<forall>w\<in>set (map (\<lambda>w. float_div w (float_sum topic)) topic). isnan w"
  using zero_sum_nonneg_row_zero[OF assms] assms(1) by auto

lemma set_selected_subset: "set (map ((!) topic) (top_features_ind topic n)) \<subseteq> set topic"
  using top_features_ind_in_range[of _ topic n] by auto

lemma row_lengths_eq_divide_by_row_sums:
  "\<forall>topic\<in>set components. length topic = k \<Longrightarrow>
     \<forall>topic\<in>set (divide_by_row_sums components). length topic = k"
  by (auto simp: divide_by_row_sums_def)

lemma plot_topics_cong:
  assumes "\<forall>topic\<in>set components. top_words feature_names n topic = top_words feature_names m topic"
  shows "plot_topics n_axes feature_names n topic_idx components
           = plot_topics n_axes feature_names m topic_idx components"
  using assms by (induction components arbitrary: topic_idx) (simp_all split: sum.split)

lemma top_words_clamped:
  assumes "int (length topic) < n"
  shows "top_words feature_names n topic = top_words feature_names (int (length topic)) topic"
proof -
  have "top_features_ind topic n = top_features_ind topic (int (length topic))"
    using assms by (simp add: all_indices_when_full)
  then show ?thesis by (simp add: top_words_def)
qed

lemma mset_names_all_indices:
  assumes "int (length topic) \<le> n" and "length topic \<le> length feature_names"
  shows "mset (map ((!) feature_names) (top_features_ind topic n))
           = mset (take (length topic) feature_names)"
proof -
  have same: "map ((!) feature_names) (top_features_ind topic n)
          = map ((!) (take (length topic) feature_names)) (top_features_ind topic n)"
    by (rule map_cong) (simp_all add: top_features_ind_in_range)
  have "length (take (length topic) feature_names) = length topic"
    using assms(2) by simp
  from mset_map_all_indices[OF assms(1) this] show ?thesis
    by (simp only: same)
qed

lemma plot_top_words_store_frame:
  "models (snd (plot_top_words_store s model feature_names n n_row n_col normalise)) = models s"
  "pylists (snd (plot_top_words_store s model feature_names n n_row n_col normalise)) = pylists s"
  "r < next_ref s \<Longrightarrow>
     ndarrays (snd (plot_top_words_store s model feature_names n n_row n_col normalise)) r = ndarrays s r"
  by (simp_all add: plot_top_words_store_def new_ndarray_def Let_def split: sum.split)

lemma plot_top_words_store_result:
  assumes "models s model = Some m"
    and "ndarrays s (components_attr m) = Some a"
    and "pylists s feature_names = Some names"
  shows "fst (plot_top_words_store s model feature_names n n_row n_col normalise)
           = plot_top_words a names n n_row n_col normalise"
  using assms
  by (simp add: plot_top_words_store_def plot_top_words_def new_ndarray_def Let_def split: sum.split)

section \<open>The claims\<close>

subsection \<open>C1: order among equal weights\<close>

text \<open>
  Two columns of equal weight, both selected: the slice walks the ascending argsort
  backwards, so column 1 is listed before column 0.
\<close>

theorem tie_order_counterexample:
  "top_features_ind [Num 1, Num 1] 2 = [1, 0] \<and>
   plot_top_words [[Num 1, Num 1]] [''a'', ''b''] 2 2 5 False = Inr [([''b'', ''a''], [Num 1, Num 1])]"
  by code_simp

text \<open>
  Claim C1, as the code has it: nothing breaks ties by index. For every result that
  \<open>argsort\<close> may return, two selected columns, those of exactly equal weight included,
  are listed in the reverse of the order in which \<open>argsort\<close> returned them: the column
  listed at position \<open>p\<close> is the one \<open>argsort\<close> returned at position
  \<open>numTerms - 1 - p\<close>. Since \<open>argsort\<close> is free to return equal values in either order,
  equal weights come out in descending or in ascending index order.
\<close>

theorem tie_order_reverses_argsort:
  assumes "is_argsort topic order"
    and "p < q"
    and "q < length (top_features_ind_of order n)"
  shows "top_features_ind_of order n ! p = order ! (length topic - 1 - p)
         \<and> top_features_ind_of order n ! q = order ! (length topic - 1 - q)
         \<and> length topic - 1 - q < length topic - 1 - p
         \<and> length topic - 1 - p < length topic"
proof -
  from assms(2,3) have p: "p < length (top_features_ind_of order n)" by simp
  from top_features_ind_of_nth[OF assms(1) p] top_features_ind_of_nth[OF assms(1,3)] assms(2)
  show ?thesis by auto
qed

text \<open>
  The row \<open>[2, 2, 1, 1]\<close> with two words per topic. For the result \<open>[3, 2, 1, 0]\<close> the
  equal weights of columns 0 and 1 are listed in ascending index order, for the result
  \<open>[2, 3, 0, 1]\<close> of the insertion sort in descending index order.
\<close>

theorem tie_order_reverses_argsort_witness:
  "is_argsort [Num 2, Num 2, Num 1, Num 1] [3, 2, 1, 0]
   \<and> top_features_ind_of [3, 2, 1, 0] 2 = [0, 1]
   \<and> argsort [Num 2, Num 2, Num 1, Num 1] = [2, 3, 0, 1]
   \<and> is_argsort [Num 2, Num 2, Num 1, Num 1] [2, 3, 0, 1]
   \<and> top_features_ind_of [2, 3, 0, 1] 2 = [1, 0]
   \<and> top_features_ind [Num 2, Num 2, Num 1, Num 1] 2 = [1, 0]
   \<and> (0::nat) < 1
   \<and> top_features_ind_of [3, 2, 1, 0] 2 ! 0
       = [3, 2, 1, 0] ! (length [Num 2, Num 2, Num 1, Num 1] - 1 - 0)
   \<and> top_features_ind_of [3, 2, 1, 0] 2 ! 1
       = [3, 2, 1, 0] ! (length [Num 2, Num 2, Num 1, Num 1] - 1 - 1)
   \<and> top_features_ind_of [2, 3, 0, 1] 2 ! 0
       = [2, 3, 0, 1] ! (length [Num 2, Num 2, Num 1, Num 1] - 1 - 0)
   \<and> top_features_ind_of [2, 3, 0, 1] 2 ! 1
       = [2, 3, 0, 1] ! (length [Num 2, Num 2, Num 1, Num 1] - 1 - 1)"
proof -
  have a1: "is_argsort [Num 2, Num 2, Num 1, Num 1] [3, 2, 1, 0]"
    by code_simp
  have s1: "top_features_ind_of [3, 2, 1, 0] 2 = [0, 1]"
    by code_simp
  have o2: "argsort [Num 2, Num 2, Num 1, Num 1] = [2, 3, 0, 1]"
    by code_simp
  have a2: "is_argsort [Num 2, Num 2, Num 1, Num 1] [2, 3, 0, 1]"
    by code_simp
  have s2: "top_features_ind_of [2, 3, 0, 1] 2 = [1, 0]"
    by code_simp
  have t2: "top_features_ind [Num 2, Num 2, Num 1, Num 1] 2 = [1, 0]"
    by code_simp
  have h: "(0::nat) < 1" by simp
  have q1: "1 < length (top_features_ind_of [3, 2, 1, 0] 2)"
    unfolding s1 by simp
  have q2: "1 < length (top_features_ind_of [2, 3, 0, 1] 2)"
    unfolding s2 by simp
  from tie_order_reverses_argsort[OF a1 h q1]
  have c1a: "top_features_ind_of [3, 2, 1, 0] 2 ! 0
       = [3, 2, 1, 0] ! (length [Num 2, Num 2, Num 1, Num 1] - 1 - 0)"
    and c1b: "top_features_ind_of [3, 2, 1, 0] 2 ! 1
       = [3, 2, 1, 0] ! (length [Num 2, Num 2, Num 1, Num 1] - 1 - 1)"
    by (rule conjunct1, rule conjunct2[THEN conjunct1])
  from tie_order_reverses_argsort[OF a2 h q2]
  have c2a: "top_features_ind_of [2, 3, 0, 1] 2 ! 0
       = [2, 3, 0, 1] ! (length [Num 2, Num 2, Num 1, Num 1] - 1 - 0)"
    and c2b: "top_features_ind_of [2, 3, 0, 1] 2 ! 1
       = [2, 3, 0, 1] ! (length [Num 2, Num 2, Num 1, Num 1] - 1 - 1)"
    by (rule conjunct1, rule conjunct2[THEN conjunct1])
  from a1 s1 o2 a2 s2 t2 h c1a c1b c2a c2b show ?thesis by (intro conjI)
qed

subsection \<open>C2: a row that sums to zero\<close>

text \<open>
  The degenerate matrix of the specification, normalised: nothing is raised, and the row's
  summary is produced with NaN weights.
\<close>

theorem zero_sum_row_counterexample:
  "plot_top_words [[Num 0, Num 0, Num 0, Num 0]] [''a'', ''b'', ''c'', ''d''] 2 2 5 True
     = Inr [([''d'', ''c''], [NaN, NaN])]"
  by (simp add: run_defs overflow_small)

text \<open>
  Claim C2, as the code has it: a row of entries that are not negative and sum to exactly
  0, which is a row of zeros, raises nothing under \<open>normalize=True\<close>. With enough axes
  and a vocabulary that covers the columns the call returns a summary for every row, and the
  summary of such a row has the usual number of weights, every one of them NaN.
\<close>

theorem zero_row_nan_weights:
  assumes "subplots_flatten n_row n_col = Inr n_axes"
    and "length components \<le> n_axes"
    and "\<forall>topic\<in>set components. length topic \<le> length feature_names"
  shows "\<exists>out. plot_top_words components feature_names n n_row n_col True = Inr out
           \<and> length out = length components
           \<and> (\<forall>k<length components.
                 float_sum (components ! k) = Num 0
                 \<and> (\<forall>w\<in>set (components ! k). \<not> float_lt w (Num 0)) \<longrightarrow>
                   (\<forall>w\<in>set (components ! k). w = Num 0)
                   \<and> length (snd (out ! k))
                       = (if 0 \<le> n then min (nat n) (length (components ! k))
                          else length (components ! k) - nat (- n))
                   \<and> (\<forall>w\<in>set (snd (out ! k)). isnan w))"
proof -
  from plot_top_words_out[OF assms, of n True] obtain out where
    ret: "plot_top_words components feature_names n n_row n_col True = Inr out"
    and len: "length out = length components"
    and nth: "\<And>k. k < length components \<Longrightarrow>
       out ! k = (map ((!) feature_names) (top_features_ind (divide_by_row_sums components ! k) n),
                  map ((!) (divide_by_row_sums components ! k))
                    (top_features_ind (divide_by_row_sums components ! k) n))"
    by auto
  have "(\<forall>w\<in>set (components ! k). w = Num 0)
        \<and> length (snd (out ! k))
          = (if 0 \<le> n then min (nat n) (length (components ! k))
             else length (components ! k) - nat (- n))
        \<and> (\<forall>w\<in>set (snd (out ! k)). isnan w)"
    if k: "k < length components" and zero: "float_sum (components ! k) = Num 0"
      and nonneg: "\<forall>w\<in>set (components ! k). \<not> float_lt w (Num 0)" for k
  proof -
    let ?row = "map (\<lambda>w. float_div w (float_sum (components ! k))) (components ! k)"
    have ws: "snd (out ! k) = map ((!) ?row) (top_features_ind ?row n)"
      using nth[OF k] divide_by_row_sums_nth[OF k] by simp
    have sub: "set (snd (out ! k)) \<subseteq> set ?row"
      unfolding ws by (rule set_selected_subset)
    have "length (snd (out ! k))
          = (if 0 \<le> n then min (nat n) (length (components ! k))
             else length (components ! k) - nat (- n))"
      unfolding ws by (simp add: length_top_features_ind)
    moreover have "\<forall>w\<in>set (snd (out ! k)). isnan w"
      using zero_sum_nonneg_row_nan[OF zero nonneg] sub by blast
    moreover note zero_sum_nonneg_row_zero[OF zero nonneg]
    ultimately show ?thesis by blast
  qed
  with ret len show ?thesis by blast
qed

theorem zero_row_nan_weights_witness:
  "subplots_flatten 2 5 = Inr 10
   \<and> length [[Num 0, Num 0, Num 0, Num 0]] \<le> 10
   \<and> list_all (\<lambda>topic. length topic \<le> length [''a'', ''b'', ''c'', ''d'']) [[Num 0, Num 0, Num 0, Num 0]]
   \<and> float_sum ([[Num 0, Num 0, Num 0, Num 0]] ! 0) = Num 0
   \<and> list_all (\<lambda>w. \<not> float_lt w (Num 0)) ([[Num 0, Num 0, Num 0, Num 0]] ! 0)
   \<and> (\<exists>out. plot_top_words [[Num 0, Num 0, Num 0, Num 0]] [''a'', ''b'', ''c'', ''d''] 2 2 5 True = Inr out
          \<and> length out = 1
          \<and> length (snd (out ! 0)) = 2
          \<and> list_all isnan (snd (out ! 0)))"
proof -
  have h1: "subplots_flatten 2 5 = Inr 10"
    by (simp add: subplots_flatten_def)
  have h2: "length [[Num 0, Num 0, Num 0, Num 0]] \<le> 10"
    by simp
  have h3: "\<forall>topic\<in>set [[Num 0, Num 0, Num 0, Num 0]]. length topic \<le> length [''a'', ''b'', ''c'', ''d'']"
    by simp
  have h4: "float_sum ([[Num 0, Num 0, Num 0, Num 0]] ! 0) = Num 0"
    by (simp add: float_sum_def overflow_small)
  have h5: "\<forall>w\<in>set ([[Num 0, Num 0, Num 0, Num 0]] ! 0). \<not> float_lt w (Num 0)"
    by simp
  from zero_row_nan_weights[OF h1 h2 h3, of 2] h4 h5
  obtain out where
    "plot_top_words [[Num 0, Num 0, Num 0, Num 0]] [''a'', ''b'', ''c'', ''d''] 2 2 5 True = Inr out
       \<and> length out = 1 \<and> length (snd (out ! 0)) = 2
       \<and> list_all isnan (snd (out ! 0))"
    by (auto simp: list_all_iff)
  then have c: "\<exists>out. plot_top_words [[Num 0, Num 0, Num 0, Num 0]] [''a'', ''b'', ''c'', ''d''] 2 2 5 True = Inr out
          \<and> length out = 1
          \<and> length (snd (out ! 0)) = 2
          \<and> list_all isnan (snd (out ! 0))"
    by (rule exI)
  have h3': "list_all (\<lambda>topic. length topic \<le> length [''a'', ''b'', ''c'', ''d'']) [[Num 0, Num 0, Num 0, Num 0]]"
    by simp
  have h5': "list_all (\<lambda>w. \<not> float_lt w (Num 0)) ([[Num 0, Num 0, Num 0, Num 0]] ! 0)"
    by simp
  from h1 h2 h3' h4 h5' c show ?thesis by (intro conjI)
qed

subsection \<open>C3: vocabulary length and column count\<close>

text \<open>
  A vocabulary longer than the row, and one shorter than it: both calls return, since no
  selected column index lies beyond the vocabulary.
\<close>

theorem shape_mismatch_counterexample:
  "plot_top_words [[Num 1, Num 2]] [''a'', ''b'', ''c''] 1 2 5 False = Inr [([''b''], [Num 2])]
   \<and> plot_top_words [[Num 5, Num 1]] [''a''] 1 2 5 False = Inr [([''a''], [Num 5])]"
  by code_simp

text \<open>
  Claim C3, as the code has it: the shapes are never compared. A topic fails only in the
  lookup of its terms, after its columns have been selected, with an IndexError, and exactly
  when a selected column index is not below the vocabulary length; a vocabulary at least as
  long as the row never fails.
\<close>

theorem shape_mismatch_index_error:
  "(top_words feature_names n topic = Inl e \<longleftrightarrow>
      e = IndexError \<and> (\<exists>i\<in>set (top_features_ind topic n). length feature_names \<le> i))
   \<and> (length topic \<le> length feature_names \<longrightarrow> (\<exists>r. top_words feature_names n topic = Inr r))"
  by (simp add: top_words_error top_words_covered)

theorem shape_mismatch_index_error_witness:
  "top_words [''a''] 1 [Num 1, Num 5] = Inl IndexError
   \<and> (\<exists>i\<in>set (top_features_ind [Num 1, Num 5] 1). length [''a''] \<le> i)
   \<and> length [Num 1, Num 5] \<le> length [''a'', ''b'', ''c'']
   \<and> (\<exists>r. top_words [''a'', ''b'', ''c''] 1 [Num 1, Num 5] = Inr r)"
proof -
  have inds: "top_features_ind [Num 1, Num 5] 1 = [1]"
    by code_simp
  have h1: "\<exists>i\<in>set (top_features_ind [Num 1, Num 5] 1). length [''a''] \<le> i"
    by (simp add: inds)
  have h2: "length [Num 1, Num 5] \<le> length [''a'', ''b'', ''c'']"
    by simp
  from shape_mismatch_index_error[of "[''a'']" 1 "[Num 1, Num 5]" IndexError] h1
  have "top_words [''a''] 1 [Num 1, Num 5] = Inl IndexError" by blast
  moreover from shape_mismatch_index_error[of "[''a'', ''b'', ''c'']" 1 "[Num 1, Num 5]"] h2
  have "\<exists>r. top_words [''a'', ''b'', ''c''] 1 [Num 1, Num 5] = Inr r" by blast
  ultimately show ?thesis using h1 h2 by blast
qed

subsection \<open>C4: the number of words outside its range\<close>

text \<open>\<open>n_top_words = 0\<close> and \<open>n_top_words = 3\<close> on a row of two columns: both calls return.\<close>

theorem topn_out_of_range_counterexample:
  "plot_top_words [[Num 1, Num 2]] [''a'', ''b''] 0 2 5 False = Inr [([], [])]
   \<and> plot_top_words [[Num 1, Num 2]] [''a'', ''b''] 3 2 5 False = Inr [([''b'', ''a''], [Num 2, Num 1])]"
  by code_simp

text \<open>
  Claim C4, as the code has it: a number of words outside \<open>[1, numTerms]\<close> raises
  nothing. With a vocabulary that covers the row, the topic yields all \<open>numTerms\<close> terms
  when the number exceeds \<open>numTerms\<close>, none when it is 0, and \<open>numTerms + n_top_words\<close>
  terms (none if that is negative) when it is negative.
\<close>

theorem topn_out_of_range_no_error:
  assumes "n < 1 \<or> int (length topic) < n" and "length topic \<le> length feature_names"
  shows "\<exists>names ws. top_words feature_names n topic = Inr (names, ws)
           \<and> length names = (if int (length topic) < n then length topic
                              else if n = 0 then 0 else length topic - nat (- n))
           \<and> length ws = length names"
  using assms by (auto simp: top_words_covered length_top_features_ind)

theorem topn_out_of_range_no_error_witness:
  "((-1::int) < 1 \<or> int (length [Num 1, Num 2, Num 3]) < -1)
   \<and> length [Num 1, Num 2, Num 3] \<le> length [''a'', ''b'', ''c'']
   \<and> (\<exists>names ws. top_words [''a'', ''b'', ''c''] (-1) [Num 1, Num 2, Num 3] = Inr (names, ws)
          \<and> length names = 2 \<and> length ws = length names)"
proof -
  have h1: "(-1::int) < 1 \<or> int (length [Num 1, Num 2, Num 3]) < -1" by simp
  have h2: "length [Num 1, Num 2, Num 3] \<le> length [''a'', ''b'', ''c'']" by simp
  from topn_out_of_range_no_error[OF h1 h2] h1 h2 show ?thesis by (simp add: numeral_2_eq_2)
qed

subsection \<open>C5: length and order of a summary\<close>

text \<open>
  Claim C5: for a vocabulary as long as every row and \<open>1 \<le> n_top_words \<le> numTerms\<close>,
  every topic's summary has exactly \<open>min(n_top_words, numTerms)\<close> terms and as many
  weights, and no weight is smaller than a later one; weights that are all numbers are
  ordered by \<open>>=\<close>. With \<open>n_top_words = numTerms\<close> the summary holds every term of the
  vocabulary, in descending order of weight. The call returns when the figure has an axes
  for every topic.
\<close>

theorem summary_length_and_order:
  assumes "subplots_flatten n_row n_col = Inr n_axes"
    and "length components \<le> n_axes"
    and "\<forall>topic\<in>set components. length topic = length feature_names"
    and "1 \<le> n" and "n \<le> int (length feature_names)"
  shows "\<exists>out. plot_top_words components feature_names n n_row n_col normalise = Inr out
           \<and> length out = length components
           \<and> (\<forall>(names, ws)\<in>set out.
                 length names = min (nat n) (length feature_names)
                 \<and> length ws = min (nat n) (length feature_names)
                 \<and> sorted_wrt (\<lambda>a b. \<not> float_lt a b) ws
                 \<and> ((\<forall>w\<in>set ws. isfinite w) \<longrightarrow> sorted_wrt float_ge ws)
                 \<and> (n = int (length feature_names) \<longrightarrow>
                       mset names = mset feature_names \<and> sorted_wrt (\<lambda>a b. \<not> np_lt a b) ws))"
proof -
  let ?rows = "if normalise then divide_by_row_sums components else components"
  let ?bars = "\<lambda>topic. (map ((!) feature_names) (top_features_ind topic n),
                         map ((!) topic) (top_features_ind topic n))"
  have cover: "\<forall>topic\<in>set components. length topic \<le> length feature_names"
    using assms(3) by simp
  have ret: "plot_top_words components feature_names n n_row n_col normalise = Inr (map ?bars ?rows)"
    by (rule plot_top_words_ok[OF assms(1,2) cover])
  have rows: "\<forall>topic\<in>set ?rows. length topic = length feature_names"
    using assms(3) row_lengths_eq_divide_by_row_sums[of components "length feature_names"]
    by simp
  have row: "length (fst (?bars topic)) = min (nat n) (length feature_names)
      \<and> length (snd (?bars topic)) = min (nat n) (length feature_names)
      \<and> sorted_wrt (\<lambda>a b. \<not> float_lt a b) (snd (?bars topic))
      \<and> ((\<forall>w\<in>set (snd (?bars topic)). isfinite w) \<longrightarrow> sorted_wrt float_ge (snd (?bars topic)))
      \<and> (n = int (length feature_names) \<longrightarrow>
            mset (fst (?bars topic)) = mset feature_names
            \<and> sorted_wrt (\<lambda>a b. \<not> np_lt a b) (snd (?bars topic)))"
    if "topic \<in> set ?rows" for topic
  proof -
    from that rows have len: "length topic = length feature_names" by blast
    have "length (fst (?bars topic)) = min (nat n) (length feature_names)"
      using assms(4) len by (simp add: length_top_features_ind)
    moreover have "length (snd (?bars topic)) = min (nat n) (length feature_names)"
      using assms(4) len by (simp add: length_top_features_ind)
    moreover have "sorted_wrt (\<lambda>a b. \<not> float_lt a b) (snd (?bars topic))"
      by (simp only: snd_conv descending_float_lt)
    moreover have "sorted_wrt float_ge (snd (?bars topic))"
      if "\<forall>w\<in>set (snd (?bars topic)). isfinite w"
      using descending_float_ge[OF that] weights_descending[of topic n] by (simp only: snd_conv)
    moreover have "mset (fst (?bars topic)) = mset feature_names"
      if full: "n = int (length feature_names)"
    proof -
      have a: "int (length topic) \<le> n" by (simp only: full len)
      have b: "length feature_names = length topic" by (simp only: len)
      show ?thesis
        by (simp only: fst_conv mset_map_all_indices[OF a b])
    qed
    moreover have "sorted_wrt (\<lambda>a b. \<not> np_lt a b) (snd (?bars topic))"
      by (simp only: snd_conv weights_descending)
    ultimately show ?thesis by blast
  qed
  have "\<forall>(names, ws)\<in>set (map ?bars ?rows).
          length names = min (nat n) (length feature_names)
          \<and> length ws = min (nat n) (length feature_names)
          \<and> sorted_wrt (\<lambda>a b. \<not> float_lt a b) ws
          \<and> ((\<forall>w\<in>set ws. isfinite w) \<longrightarrow> sorted_wrt float_ge ws)
          \<and> (n = int (length feature_names) \<longrightarrow>
                mset names = mset feature_names \<and> sorted_wrt (\<lambda>a b. \<not> np_lt a b) ws)"
    unfolding set_map ball_simps(9) using row by (simp only: split_conv fst_conv snd_conv) blast
  moreover have "length (map ?bars ?rows) = length components"
    by (simp add: length_divide_by_row_sums)
  ultimately show ?thesis using ret by blast
qed

theorem summary_length_and_order_witness:
  "subplots_flatten 2 5 = Inr 10
   \<and> length [[Num (1/10), Num 0, Num (2/5), Num (1/2)], [Num 3, Num 1, Num 0, Num 1]] \<le> 10
   \<and> list_all (\<lambda>topic. length topic = length [''a'', ''b'', ''c'', ''d''])
         [[Num (1/10), Num 0, Num (2/5), Num (1/2)], [Num 3, Num 1, Num 0, Num 1]]
   \<and> (1::int) \<le> 4
   \<and> 4 \<le> int (length [''a'', ''b'', ''c'', ''d''])
   \<and> plot_top_words
         [[Num (1/10), Num 0, Num (2/5), Num (1/2)], [Num 3, Num 1, Num 0, Num 1]]
         [''a'', ''b'', ''c'', ''d''] 4 2 5 True
       = Inr [([''d'', ''c'', ''a'', ''b''], [Num (1/2), Num (2/5), Num (1/10), Num 0]),
              ([''a'', ''d'', ''b'', ''c''], [Num (3/5), Num (1/5), Num (1/5), Num 0])]
   \<and> (\<exists>out. plot_top_words
                  [[Num (1/10), Num 0, Num (2/5), Num (1/2)], [Num 3, Num 1, Num 0, Num 1]]
                  [''a'', ''b'', ''c'', ''d''] 4 2 5 True = Inr out
          \<and> length out
               = length [[Num (1/10), Num 0, Num (2/5), Num (1/2)], [Num 3, Num 1, Num 0, Num 1]]
          \<and> (\<forall>(names, ws)\<in>set out.
                length names = min (nat 4) (length [''a'', ''b'', ''c'', ''d''])
                \<and> length ws = min (nat 4) (length [''a'', ''b'', ''c'', ''d''])
                \<and> sorted_wrt (\<lambda>a b. \<not> float_lt a b) ws
                \<and> ((\<forall>w\<in>set ws. isfinite w) \<longrightarrow> sorted_wrt float_ge ws)
                \<and> (4 = int (length [''a'', ''b'', ''c'', ''d'']) \<longrightarrow>
                      mset names = mset [''a'', ''b'', ''c'', ''d'']
                      \<and> sorted_wrt (\<lambda>a b. \<not> np_lt a b) ws)))"
proof -
  have h1: "subplots_flatten 2 5 = Inr 10"
    by (simp add: subplots_flatten_def)
  have h2: "length [[Num (1/10), Num 0, Num (2/5), Num (1/2)], [Num 3, Num 1, Num 0, Num 1]] \<le> 10"
    by simp
  have h3: "\<forall>topic\<in>set [[Num (1/10), Num 0, Num (2/5), Num (1/2)], [Num 3, Num 1, Num 0, Num 1]].
              length topic = length [''a'', ''b'', ''c'', ''d'']"
    by simp
  have h4: "(1::int) \<le> 4" by simp
  have h5: "4 \<le> int (length [''a'', ''b'', ''c'', ''d''])" by simp
  have run: "plot_top_words
         [[Num (1/10), Num 0, Num (2/5), Num (1/2)], [Num 3, Num 1, Num 0, Num 1]]
         [''a'', ''b'', ''c'', ''d''] 4 2 5 True
       = Inr [([''d'', ''c'', ''a'', ''b''], [Num (1/2), Num (2/5), Num (1/10), Num 0]),
              ([''a'', ''d'', ''b'', ''c''], [Num (3/5), Num (1/5), Num (1/5), Num 0])]"
    by (simp add: run_defs overflow_small)
  from summary_length_and_order[OF h1 h2 h3 h4 h5, of True]
  have c: "(\<exists>out. plot_top_words
                  [[Num (1/10), Num 0, Num (2/5), Num (1/2)], [Num 3, Num 1, Num 0, Num 1]]
                  [''a'', ''b'', ''c'', ''d''] 4 2 5 True = Inr out
          \<and> length out
               = length [[Num (1/10), Num 0, Num (2/5), Num (1/2)], [Num 3, Num 1, Num 0, Num 1]]
          \<and> (\<forall>(names, ws)\<in>set out.
                length names = min (nat 4) (length [''a'', ''b'', ''c'', ''d''])
                \<and> length ws = min (nat 4) (length [''a'', ''b'', ''c'', ''d''])
                \<and> sorted_wrt (\<lambda>a b. \<not> float_lt a b) ws
                \<and> ((\<forall>w\<in>set ws. isfinite w) \<longrightarrow> sorted_wrt float_ge ws)
                \<and> (4 = int (length [''a'', ''b'', ''c'', ''d'']) \<longrightarrow>
                      mset names = mset [''a'', ''b'', ''c'', ''d'']
                      \<and> sorted_wrt (\<lambda>a b. \<not> np_lt a b) ws)))" .
  have h3': "list_all (\<lambda>topic. length topic = length [''a'', ''b'', ''c'', ''d''])
               [[Num (1/10), Num 0, Num (2/5), Num (1/2)], [Num 3, Num 1, Num 0, Num 1]]"
    by simp
  from h1 h2 h3' h4 h5 run c show ?thesis by (intro conjI)
qed

subsection \<open>C6: normalised rows\<close>

text \<open>
  Claim C6 says that, when every entry is a number that is not negative and no row sums to
  0, every row of the normalised matrix sums to 1, and the docstring of the function
  promises the same (\<open>normalizes the components so that they sum to 1\<close>). The row
  \<open>[2^1023, 2^1023]\<close> meets the conditions, but its sum overflows to infinity, every
  entry divided by it is 0, and the normalised row sums to 0.
\<close>

theorem normalised_row_sum_overflow:
  "float_sum [Num (2 ^ 1023), Num (2 ^ 1023)] = PInf
   \<and> divide_by_row_sums [[Num (2 ^ 1023), Num (2 ^ 1023)]] = [[Num 0, Num 0]]
   \<and> float_sum [Num 0, Num 0] = Num 0"
  by (simp add: divide_by_row_sums_def float_sum_def overflow_def float64_overflow_bound_def)

subsection \<open>C7: the worked example\<close>

text \<open>
  Claim C7: the matrix \<open>[[0.1, 0.0, 0.4, 0.5]]\<close> with vocabulary \<open>a, b, c, d\<close> and two
  words per topic gives \<open>[(d, 0.5), (c, 0.4)]\<close> without normalisation; the row sums to 1,
  and with normalisation the output is the same.
\<close>

theorem worked_example:
  "plot_top_words [[Num (1/10), Num 0, Num (2/5), Num (1/2)]] [''a'', ''b'', ''c'', ''d''] 2 2 5 False
     = Inr [([''d'', ''c''], [Num (1/2), Num (2/5)])]
   \<and> float_sum [Num (1/10), Num 0, Num (2/5), Num (1/2)] = Num 1
   \<and> plot_top_words [[Num (1/10), Num 0, Num (2/5), Num (1/2)]] [''a'', ''b'', ''c'', ''d''] 2 2 5 True
     = Inr [([''d'', ''c''], [Num (1/2), Num (2/5)])]"
  by (simp add: run_defs overflow_small)

subsection \<open>C8: the inputs are left as they were\<close>

text \<open>
  Claim C8: after the call the model still refers to the same weight matrix, that matrix
  and the vocabulary hold the values they held before, and so does every array that existed
  before the call, with or without normalisation: the normalised matrix is a new array. The
  value the call yields is that of \<open>plot_top_words\<close> on the values of its arguments.
\<close>

theorem inputs_unchanged:
  assumes "models s model = Some m"
    and "components_attr m < next_ref s"
    and "ndarrays s (components_attr m) = Some a"
    and "pylists s feature_names = Some names"
  shows "fst (plot_top_words_store s model feature_names n n_row n_col normalise)
           = plot_top_words a names n n_row n_col normalise
         \<and> models (snd (plot_top_words_store s model feature_names n n_row n_col normalise)) model = Some m
         \<and> ndarrays (snd (plot_top_words_store s model feature_names n n_row n_col normalise))
              (components_attr m) = Some a
         \<and> pylists (snd (plot_top_words_store s model feature_names n n_row n_col normalise))
              feature_names = Some names
         \<and> (\<forall>r<next_ref s.
               ndarrays (snd (plot_top_words_store s model feature_names n n_row n_col normalise)) r
                 = ndarrays s r)
         \<and> models (snd (plot_top_words_store s model feature_names n n_row n_col normalise)) = models s
         \<and> pylists (snd (plot_top_words_store s model feature_names n n_row n_col normalise)) = pylists s"
  using assms
  by (simp add: plot_top_words_store_frame plot_top_words_store_result)

theorem inputs_unchanged_witness:
  "models \<lparr>models = [0 \<mapsto> \<lparr>components_attr = 1\<rparr>], ndarrays = [1 \<mapsto> [[Num 1, Num 3]]],
        pylists = [2 \<mapsto> [''a'', ''b'']], next_ref = 3\<rparr> 0 = Some \<lparr>components_attr = 1\<rparr>
   \<and> components_attr \<lparr>components_attr = 1\<rparr> < next_ref \<lparr>models = [0 \<mapsto> \<lparr>components_attr = 1\<rparr>], ndarrays = [1 \<mapsto> [[Num 1, Num 3]]],
        pylists = [2 \<mapsto> [''a'', ''b'']], next_ref = 3\<rparr>
   \<and> ndarrays \<lparr>models = [0 \<mapsto> \<lparr>components_attr = 1\<rparr>], ndarrays = [1 \<mapsto> [[Num 1, Num 3]]],
        pylists = [2 \<mapsto> [''a'', ''b'']], next_ref = 3\<rparr> (components_attr \<lparr>components_attr = 1\<rparr>) = Some [[Num 1, Num 3]]
   \<and> pylists \<lparr>models = [0 \<mapsto> \<lparr>components_attr = 1\<rparr>], ndarrays = [1 \<mapsto> [[Num 1, Num 3]]],
        pylists = [2 \<mapsto> [''a'', ''b'']], next_ref = 3\<rparr> 2 = Some [''a'', ''b'']
   \<and> fst (plot_top_words_store \<lparr>models = [0 \<mapsto> \<lparr>components_attr = 1\<rparr>], ndarrays = [1 \<mapsto> [[Num 1, Num 3]]],
        pylists = [2 \<mapsto> [''a'', ''b'']], next_ref = 3\<rparr> 0 2 1 2 5 True) = Inr [([''b''], [Num (3/4)])]
   \<and> ndarrays (snd (plot_top_words_store \<lparr>models = [0 \<mapsto> \<lparr>components_attr = 1\<rparr>], ndarrays = [1 \<mapsto> [[Num 1, Num 3]]],
        pylists = [2 \<mapsto> [''a'', ''b'']], next_ref = 3\<rparr> 0 2 1 2 5 True)) 1 = Some [[Num 1, Num 3]]
   \<and> ndarrays (snd (plot_top_words_store \<lparr>models = [0 \<mapsto> \<lparr>components_attr = 1\<rparr>], ndarrays = [1 \<mapsto> [[Num 1, Num 3]]],
        pylists = [2 \<mapsto> [''a'', ''b'']], next_ref = 3\<rparr> 0 2 1 2 5 True)) 3 = Some [[Num (1/4), Num (3/4)]]
   \<and> pylists (snd (plot_top_words_store \<lparr>models = [0 \<mapsto> \<lparr>components_attr = 1\<rparr>], ndarrays = [1 \<mapsto> [[Num 1, Num 3]]],
        pylists = [2 \<mapsto> [''a'', ''b'']], next_ref = 3\<rparr> 0 2 1 2 5 True)) 2 = Some [''a'', ''b'']"
proof -
  let ?s = "\<lparr>models = [0 \<mapsto> \<lparr>components_attr = 1\<rparr>], ndarrays = [1 \<mapsto> [[Num 1, Num 3]]],
        pylists = [2 \<mapsto> [''a'', ''b'']], next_ref = 3\<rparr>"
  have h1: "models ?s 0 = Some \<lparr>components_attr = 1\<rparr>" by simp
  have h2: "components_attr \<lparr>components_attr = 1\<rparr> < next_ref ?s" by simp
  have h3: "ndarrays ?s (components_attr \<lparr>components_attr = 1\<rparr>) = Some [[Num 1, Num 3]]" by simp
  have h4: "pylists ?s 2 = Some [''a'', ''b'']" by simp
  have r: "plot_top_words [[Num 1, Num 3]] [''a'', ''b''] 1 2 5 True = Inr [([''b''], [Num (3/4)])]"
    by (simp add: run_defs overflow_small)
  have fresh: "ndarrays (snd (plot_top_words_store ?s 0 2 1 2 5 True)) 3 = Some [[Num (1/4), Num (3/4)]]"
    by (simp add: plot_top_words_store_def subplots_flatten_def new_ndarray_def
        divide_by_row_sums_def float_sum_def overflow_small)
  from inputs_unchanged[OF h1 h2 h3 h4, of 1 2 5 True] r
  have "fst (plot_top_words_store ?s 0 2 1 2 5 True) = Inr [([''b''], [Num (3/4)])]"
    and "ndarrays (snd (plot_top_words_store ?s 0 2 1 2 5 True)) 1 = Some [[Num 1, Num 3]]"
    and "pylists (snd (plot_top_words_store ?s 0 2 1 2 5 True)) 2 = Some [''a'', ''b'']"
    by simp_all
  with h1 h2 h3 h4 fresh show ?thesis by (intro conjI)
qed

subsection \<open>C9: the number of words is clamped silently\<close>

text \<open>
  Claim C9: when \<open>n_top_words\<close> exceeds \<open>numTerms\<close>, nothing is raised and the call
  yields what it yields for \<open>n_top_words = numTerms\<close>: for every topic all \<open>numTerms\<close>
  terms, in descending order of weight.
\<close>

theorem silent_clamp:
  assumes "\<forall>topic\<in>set components. length topic = num_terms"
    and "int num_terms < n"
    and "num_terms \<le> length feature_names"
    and "subplots_flatten n_row n_col = Inr n_axes"
    and "length components \<le> n_axes"
  shows "\<exists>out. plot_top_words components feature_names n n_row n_col normalise = Inr out
           \<and> plot_top_words components feature_names (int num_terms) n_row n_col normalise = Inr out
           \<and> length out = length components
           \<and> (\<forall>(names, ws)\<in>set out.
                 length names = num_terms \<and> length ws = num_terms
                 \<and> mset names = mset (take num_terms feature_names)
                 \<and> sorted_wrt (\<lambda>a b. \<not> float_lt a b) ws)"
proof -
  let ?rows = "if normalise then divide_by_row_sums components else components"
  let ?bars = "\<lambda>topic. (map ((!) feature_names) (top_features_ind topic n),
                         map ((!) topic) (top_features_ind topic n))"
  have rows: "\<forall>topic\<in>set ?rows. length topic = num_terms"
    using assms(1) row_lengths_eq_divide_by_row_sums[of components num_terms] by simp
  have "\<forall>topic\<in>set ?rows.
          top_words feature_names n topic = top_words feature_names (int num_terms) topic"
  proof
    fix topic assume "topic \<in> set ?rows"
    with rows have len: "length topic = num_terms" by blast
    with assms(2) have "int (length topic) < n" by simp
    from top_words_clamped[OF this] len
    show "top_words feature_names n topic = top_words feature_names (int num_terms) topic"
      by simp
  qed
  then have "plot_topics k feature_names n 0 ?rows
               = plot_topics k feature_names (int num_terms) 0 ?rows" for k
    by (rule plot_topics_cong)
  then have eq: "plot_top_words components feature_names n n_row n_col normalise
           = plot_top_words components feature_names (int num_terms) n_row n_col normalise"
    unfolding plot_top_words_def Let_def by (simp only:)
  have "\<forall>topic\<in>set components. length topic \<le> length feature_names"
    using assms(1,3) by simp
  from plot_top_words_ok[OF assms(4,5) this]
  have ret: "plot_top_words components feature_names n n_row n_col normalise
               = Inr (map ?bars ?rows)" .
  have row: "length (fst (?bars topic)) = num_terms \<and> length (snd (?bars topic)) = num_terms
      \<and> mset (fst (?bars topic)) = mset (take num_terms feature_names)
      \<and> sorted_wrt (\<lambda>a b. \<not> float_lt a b) (snd (?bars topic))"
    if "topic \<in> set ?rows" for topic
  proof -
    from that rows have len: "length topic = num_terms" by blast
    with assms(2) have "length (top_features_ind topic n) = num_terms"
      by (simp add: length_top_features_ind)
    moreover have "mset (map ((!) feature_names) (top_features_ind topic n))
                     = mset (take num_terms feature_names)"
      using mset_names_all_indices[of topic n feature_names] assms(2,3) len by simp
    ultimately show ?thesis
      by (simp add: descending_float_lt)
  qed
  have "\<forall>(names, ws)\<in>set (map ?bars ?rows).
          length names = num_terms \<and> length ws = num_terms
          \<and> mset names = mset (take num_terms feature_names)
          \<and> sorted_wrt (\<lambda>a b. \<not> float_lt a b) ws"
    unfolding set_map ball_simps(9) using row by (simp only: split_conv fst_conv snd_conv) blast
  moreover have "length (map ?bars ?rows) = length components"
    by (simp add: length_divide_by_row_sums)
  ultimately show ?thesis using ret eq by (metis (no_types, lifting))
qed

theorem silent_clamp_witness:
  "list_all (\<lambda>topic. length topic = 3) [[Num 1, Num 3, Num 2]]
   \<and> int 3 < 10
   \<and> 3 \<le> length [''a'', ''b'', ''c'']
   \<and> subplots_flatten 2 5 = Inr 10
   \<and> length [[Num 1, Num 3, Num 2]] \<le> 10
   \<and> plot_top_words [[Num 1, Num 3, Num 2]] [''a'', ''b'', ''c''] 10 2 5 False
       = Inr [([''b'', ''c'', ''a''], [Num 3, Num 2, Num 1])]
   \<and> (\<exists>out. plot_top_words [[Num 1, Num 3, Num 2]] [''a'', ''b'', ''c''] 10 2 5 False = Inr out
          \<and> plot_top_words [[Num 1, Num 3, Num 2]] [''a'', ''b'', ''c''] (int 3) 2 5 False = Inr out
          \<and> length out = length [[Num 1, Num 3, Num 2]]
          \<and> (\<forall>(names, ws)\<in>set out.
                length names = 3 \<and> length ws = 3
                \<and> mset names = mset (take 3 [''a'', ''b'', ''c''])
                \<and> sorted_wrt (\<lambda>a b. \<not> float_lt a b) ws))"
proof -
  have h1: "\<forall>topic\<in>set [[Num 1, Num 3, Num 2]]. length topic = 3" by simp
  have h2: "int 3 < 10" by simp
  have h3: "3 \<le> length [''a'', ''b'', ''c'']" by simp
  have h4: "subplots_flatten 2 5 = Inr 10" by (simp add: subplots_flatten_def)
  have h5: "length [[Num 1, Num 3, Num 2]] \<le> 10" by simp
  have full: "plot_top_words [[Num 1, Num 3, Num 2]] [''a'', ''b'', ''c''] (int 3) 2 5 False
                = Inr [([''b'', ''c'', ''a''], [Num 3, Num 2, Num 1])]"
    by code_simp
  from silent_clamp[OF h1 h2 h3 h4 h5, of False]
  have c: "(\<exists>out. plot_top_words [[Num 1, Num 3, Num 2]] [''a'', ''b'', ''c''] 10 2 5 False = Inr out
          \<and> plot_top_words [[Num 1, Num 3, Num 2]] [''a'', ''b'', ''c''] (int 3) 2 5 False = Inr out
          \<and> length out = length [[Num 1, Num 3, Num 2]]
          \<and> (\<forall>(names, ws)\<in>set out.
                length names = 3 \<and> length ws = 3
                \<and> mset names = mset (take 3 [''a'', ''b'', ''c''])
                \<and> sorted_wrt (\<lambda>a b. \<not> float_lt a b) ws))" .
  with full have "plot_top_words [[Num 1, Num 3, Num 2]] [''a'', ''b'', ''c''] 10 2 5 False
                    = Inr [([''b'', ''c'', ''a''], [Num 3, Num 2, Num 1])]"
    by auto
  moreover have "list_all (\<lambda>topic. length topic = 3) [[Num 1, Num 3, Num 2]]"
    by simp
  ultimately show ?thesis using h2 h3 h4 h5 c by (intro conjI)
qed

subsection \<open>C10: terms and weights are paired by column\<close>

text \<open>
  Claim C10: for a vocabulary as long as the row, the selected column indices are pairwise
  distinct and lie within the row, and the summary pairs, position by position, the term
  \<open>feature_names[i]\<close> with the weight \<open>topic[i]\<close> of the same selected index \<open>i\<close>.
\<close>

theorem pairing_consistent:
  assumes "length feature_names = length topic"
  shows "distinct (top_features_ind topic n)
         \<and> (\<forall>i\<in>set (top_features_ind topic n). i < length topic)
         \<and> top_words feature_names n topic
             = Inr (map (\<lambda>i. feature_names ! i) (top_features_ind topic n),
                    map (\<lambda>i. topic ! i) (top_features_ind topic n))"
proof -
  have "length topic \<le> length feature_names"
    using assms by simp
  from top_words_covered[OF this] show ?thesis
    by (simp add: distinct_top_features_ind top_features_ind_in_range)
qed

theorem pairing_consistent_witness:
  "length [''a'', ''b'', ''c'', ''d''] = length [Num (1/10), Num 0, Num (2/5), Num (1/2)]
   \<and> top_features_ind [Num (1/10), Num 0, Num (2/5), Num (1/2)] 2 = [3, 2]
   \<and> top_words [''a'', ''b'', ''c'', ''d''] 2 [Num (1/10), Num 0, Num (2/5), Num (1/2)]
        = Inr ([[''a'', ''b'', ''c'', ''d''] ! 3, [''a'', ''b'', ''c'', ''d''] ! 2],
               [[Num (1/10), Num 0, Num (2/5), Num (1/2)] ! 3, [Num (1/10), Num 0, Num (2/5), Num (1/2)] ! 2])"
proof -
  have h: "length [''a'', ''b'', ''c'', ''d''] = length [Num (1/10), Num 0, Num (2/5), Num (1/2)]"
    by simp
  have inds: "top_features_ind [Num (1/10), Num 0, Num (2/5), Num (1/2)] 2 = [3, 2]"
    by code_simp
  from pairing_consistent[OF h, of 2]
  have "top_words [''a'', ''b'', ''c'', ''d''] 2 [Num (1/10), Num 0, Num (2/5), Num (1/2)]
        = Inr ([[''a'', ''b'', ''c'', ''d''] ! 3, [''a'', ''b'', ''c'', ''d''] ! 2],
               [[Num (1/10), Num 0, Num (2/5), Num (1/2)] ! 3, [Num (1/10), Num 0, Num (2/5), Num (1/2)] ! 2])"
    by (simp only: inds list.map)
  with h inds show ?thesis by (intro conjI)
qed

end
